theory Spec2Isabelle
  imports Main
begin

section \<open>Python strings\<close>

text \<open>
  A Python \<open>str\<close> is modelled as a \<open>string\<close>: one \<open>char\<close> per code point, for the
  code points 0 to 255. The operations below are the \<open>str\<close> methods and the regular
  expressions that \<open>src/llms/__init__.py\<close> uses, each restricted to the way the
  source calls it.
\<close>

text \<open>
  The exceptions that the modelled code raises. \<open>ExchangeError\<close> stands for whatever
  exception an exchange with a provider raises (from the client library or from reading
  the response).
\<close>

datatype py_error =
    AssertionError
  | ValueError
  | KeyError
  | IndexError
  | TypeError
  | ExchangeError

text \<open>\<open>s.startswith(p)\<close>.\<close>

fun startswith :: "string \<Rightarrow> string \<Rightarrow> bool" where
  "startswith s [] = True"
| "startswith [] (p # ps) = False"
| "startswith (c # cs) (p # ps) = (c = p \<and> startswith cs ps)"

text \<open>
  \<open>s.partition(sep)\<close> for a non-empty \<open>sep\<close>: the text before the first occurrence of
  \<open>sep\<close> and the text after it, or \<open>None\<close> when \<open>sep\<close> does not occur (Python then
  returns \<open>(s, '', '')\<close>).
\<close>

fun find_sep :: "string \<Rightarrow> string \<Rightarrow> (string \<times> string) option" where
  "find_sep sep [] = None"
| "find_sep sep (c # cs) =
     (if startswith (c # cs) sep then Some ([], drop (length sep) (c # cs))
      else (case find_sep sep cs of
              None \<Rightarrow> None
            | Some (b, a) \<Rightarrow> Some (c # b, a)))"

text \<open>\<open>sub in s\<close> for a non-empty \<open>sub\<close>.\<close>

definition contains :: "string \<Rightarrow> string \<Rightarrow> bool" where
  "contains sub s = (find_sep sub s \<noteq> None)"

text \<open>\<open>s.partition(sep)[2]\<close>.\<close>

definition partition_after :: "string \<Rightarrow> string \<Rightarrow> string" where
  "partition_after sep s = (case find_sep sep s of None \<Rightarrow> [] | Some (b, a) \<Rightarrow> a)"

lemma find_sep_shorter:
  "find_sep sep s = Some (b, a) \<Longrightarrow> sep \<noteq> [] \<Longrightarrow> length a < length s"
proof (induction s arbitrary: b a)
  case Nil
  then show ?case by simp
next
  case (Cons c cs)
  show ?case
  proof (cases "startswith (c # cs) sep")
    case True
    with Cons.prems show ?thesis by (cases sep) auto
  next
    case False
    with Cons.prems obtain b' where "find_sep sep cs = Some (b', a)"
      by (auto split: option.splits)
    from Cons.IH [OF this Cons.prems(2)] show ?thesis by simp
  qed
qed

text \<open>
  \<open>s.count(sep)\<close> and \<open>s.split(sep)\<close> for a non-empty \<open>sep\<close>: the non-overlapping
  occurrences, found from the left. (Python raises on an empty separator; the source
  never passes one.)
\<close>

function str_count :: "string \<Rightarrow> string \<Rightarrow> nat" where
  "str_count sep s =
     (if sep = [] then 0
      else (case find_sep sep s of
              None \<Rightarrow> 0
            | Some (b, a) \<Rightarrow> Suc (str_count sep a)))"
  by pat_completeness auto
termination
  by (relation "measure (\<lambda>(sep, s). length s)") (auto dest: find_sep_shorter)

function str_split :: "string \<Rightarrow> string \<Rightarrow> string list" where
  "str_split sep s =
     (if sep = [] then [s]
      else (case find_sep sep s of
              None \<Rightarrow> [s]
            | Some (b, a) \<Rightarrow> b # str_split sep a))"
  by pat_completeness auto
termination
  by (relation "measure (\<lambda>(sep, s). length s)") (auto dest: find_sep_shorter)

declare str_count.simps [simp del] str_split.simps [simp del]

text \<open>
  The greedy \<open>(.*)\<close> of the two fence patterns, under \<open>re.DOTALL\<close>: the text before
  the last occurrence of the closing literal, or \<open>None\<close> when it does not occur.
\<close>

fun rfind_sep :: "string \<Rightarrow> string \<Rightarrow> string option" where
  "rfind_sep sep [] = None"
| "rfind_sep sep (c # cs) =
     (case rfind_sep sep cs of
        Some b \<Rightarrow> Some (c # b)
      | None \<Rightarrow> if startswith (c # cs) sep then Some [] else None)"

text \<open>
  \<open>re.search(opening (.*) closing, s, re.DOTALL | re.MULTILINE)\<close> and its
  \<open>group(1)\<close>, for literal \<open>opening\<close> and \<open>closing\<close>. The search takes the leftmost
  occurrence of \<open>opening\<close>; if no \<open>closing\<close> follows it, none follows a later
  occurrence either, so the search fails. The group runs to the last \<open>closing\<close>.
\<close>

definition re_search_between :: "string \<Rightarrow> string \<Rightarrow> string \<Rightarrow> string option" where
  "re_search_between opening closing s =
     (case find_sep opening s of
        None \<Rightarrow> None
      | Some (b, rest) \<Rightarrow> rfind_sep closing rest)"

section \<open>Code-block extraction\<close>

definition fence :: string where
  "fence = ''```python''"

definition newline :: string where
  "newline = [CHR 0x0A]"

definition tab :: char where
  "tab = CHR 0x09"

definition marker :: string where
  "marker = ''def transform(''"

text \<open>\<open>noop_code\<close>: the literal of the source after \<open>.strip()\<close>.\<close>

definition noop_code :: string where
  "noop_code =
     ''def transform(grid_lst: list[list[int]]) -> list[list[int]]:'' @ newline @
     ''    raise NotImplementedError()''"

text \<open>\<open>clean_code\<close>: \<open>s.replace("\t", " " * 4)\<close>.\<close>

fun clean_code :: "string \<Rightarrow> string" where
  "clean_code [] = []"
| "clean_code (c # cs) = (if c = tab then ''    '' @ clean_code cs else c # clean_code cs)"

text \<open>
  The loop \<open>for chunk in s.split("```python")[::-1]\<close> of \<open>parse_python_backticks\<close>:
  the first chunk holding the marker replaces \<open>s\<close> and ends the loop; when no chunk
  holds it, \<open>s\<close> is left as it was.
\<close>

fun select_chunk :: "string \<Rightarrow> string list \<Rightarrow> string" where
  "select_chunk s [] = s"
| "select_chunk s (chunk # chunks) =
     (if contains marker chunk then fence @ chunk else select_chunk s chunks)"

definition parse_python_backticks :: "string \<Rightarrow> py_error + string" where
  "parse_python_backticks s =
     (if str_count fence s = 0 then
        (let out = partition_after ''</reasoning>'' s
         in if out = [] then Inr noop_code else Inr (clean_code out))
      else
        (let s1 = (if str_count fence s > 1
                   then select_chunk s (rev (str_split fence s)) else s)
         in if str_count fence s1 \<noteq> 1 then Inl AssertionError
            else (case re_search_between (fence @ newline) (newline @ ''```'') s1 of
                    Some g \<Rightarrow> Inr (clean_code g)
                  | None \<Rightarrow>
                      (case re_search_between (fence @ newline) (newline @ ''`'') s1 of
                         Some g \<Rightarrow> Inr (clean_code g)
                       | None \<Rightarrow> Inr (clean_code (partition_after fence s1))))))"

section \<open>Grid extraction\<close>

text \<open>
  \<open>str.isspace\<close> on the code points below 256: the characters that \<open>\s\<close> matches in
  a \<open>str\<close> pattern and that \<open>str.strip()\<close> removes.
\<close>

definition is_space :: "char \<Rightarrow> bool" where
  "is_space c =
     (let n = (of_char c :: nat)
      in (9 \<le> n \<and> n \<le> 13) \<or> (28 \<le> n \<and> n \<le> 32) \<or> n = 133 \<or> n = 160)"

text \<open>The decimal digits among the code points below 256: \<open>0\<close> to \<open>9\<close>.\<close>

definition is_digit :: "char \<Rightarrow> bool" where
  "is_digit c = (let n = (of_char c :: nat) in 48 \<le> n \<and> n \<le> 57)"

text \<open>\<open>s.strip()\<close>.\<close>

definition strip :: "string \<Rightarrow> string" where
  "strip s = rev (dropWhile is_space (rev (dropWhile is_space s)))"

text \<open>
  The outer pattern of \<open>parse_2d_arrays_from_string\<close> is
  \<^verbatim>\<open>\[\s*(\[[^\[\]]*\](?:,\s*\[[^\[\]]*\])*\s*)\]\<close>.
  Every greedy repetition in it is followed by a character that the repetition cannot
  take (\<open>\s*\<close> by a bracket, \<open>[^\[\]]*\<close> by \<open>]\<close>, the row repetition by optional
  spaces and \<open>]\<close> where a further row would need a comma), so backtracking never finds
  a match that the greedy run misses, and the match at a position is computed by one
  left-to-right pass.

  \<open>match_row\<close> is one row \<^verbatim>\<open>\[[^\[\]]*\]\<close> at the start of the text: it returns the
  text after the row.
\<close>

definition not_bracket :: "char \<Rightarrow> bool" where
  "not_bracket c = (c \<noteq> CHR ''['' \<and> c \<noteq> CHR '']'')"

fun match_row :: "string \<Rightarrow> string option" where
  "match_row [] = None"
| "match_row (c # cs) =
     (if c = CHR ''[''
      then (case dropWhile not_bracket cs of
              [] \<Rightarrow> None
            | d # r \<Rightarrow> if d = CHR '']'' then Some r else None)
      else None)"

lemma match_row_shorter: "match_row s = Some r \<Longrightarrow> length r < length s"
proof (cases s)
  case Nil
  then show "match_row s = Some r \<Longrightarrow> length r < length s" by simp
next
  case (Cons c cs)
  assume m: "match_row s = Some r"
  with Cons obtain d where "dropWhile not_bracket cs = d # r"
    by (auto split: if_splits list.splits)
  then have "length (d # r) \<le> length cs"
    by (metis length_dropWhile_le)
  with Cons show "length r < length s" by simp
qed

text \<open>
  \<open>match_rows\<close> is the repetition \<^verbatim>\<open>(?:,\s*\[[^\[\]]*\])*\<close>: it returns the text after
  the last row that it can take.
\<close>

function match_rows :: "string \<Rightarrow> string" where
  "match_rows s =
     (case s of
        [] \<Rightarrow> s
      | c # cs \<Rightarrow>
          if c = CHR '',''
          then (case match_row (dropWhile is_space cs) of
                  None \<Rightarrow> s
                | Some r \<Rightarrow> match_rows r)
          else s)"
  by pat_completeness auto
termination
proof (relation "measure length")
  show "wf (measure length)" by simp
next
  fix s :: string and c cs r
  assume "s = c # cs" "c = CHR '',''" "match_row (dropWhile is_space cs) = Some r"
  then have "length r < length (dropWhile is_space cs)"
    by (auto dest: match_row_shorter)
  also have "\<dots> \<le> length cs" by (rule length_dropWhile_le)
  finally show "(r, s) \<in> measure length" using \<open>s = c # cs\<close> by simp
qed

declare match_rows.simps [simp del]

lemma match_rows_le: "length (match_rows s) \<le> length s"
proof (induction s rule: match_rows.induct)
  case (1 s)
  show ?case
  proof (cases s)
    case Nil
    then show ?thesis by (subst match_rows.simps) simp
  next
    case (Cons c cs)
    show ?thesis
    proof (cases "c = CHR '',''")
      case False
      with Cons show ?thesis by (subst match_rows.simps) simp
    next
      case True
      show ?thesis
      proof (cases "match_row (dropWhile is_space cs)")
        case None
        with Cons True show ?thesis by (subst match_rows.simps) simp
      next
        case (Some r)
        from "1.IH" [OF Cons True Some] have "length (match_rows r) \<le> length r" .
        moreover have "length r < length (dropWhile is_space cs)"
          using Some by (rule match_row_shorter)
        moreover have "length (dropWhile is_space cs) \<le> length cs"
          by (rule length_dropWhile_le)
        moreover have "match_rows s = match_rows r"
          using Cons True Some by (subst match_rows.simps) simp
        ultimately show ?thesis using Cons by simp
      qed
    qed
  qed
qed

text \<open>
  \<open>match_outer\<close> is the whole pattern at the start of the text: it returns group 1
  (from the first row up to the closing bracket, trailing spaces included) and the text
  after the match.
\<close>

definition match_outer :: "string \<Rightarrow> (string \<times> string) option" where
  "match_outer s =
     (case s of
        [] \<Rightarrow> None
      | c # cs \<Rightarrow>
          if c \<noteq> CHR ''['' then None
          else (let s2 = dropWhile is_space cs
                in case match_row s2 of
                     None \<Rightarrow> None
                   | Some s5 \<Rightarrow>
                       (case dropWhile is_space (match_rows s5) of
                          [] \<Rightarrow> None
                        | d # s9 \<Rightarrow>
                            if d = CHR '']''
                            then Some (take (length s2 - Suc (length s9)) s2, s9)
                            else None)))"

lemma match_outer_shorter:
  assumes "match_outer s = Some (g, rest)"
  shows "length rest < length s"
proof -
  from assms obtain c cs where s: "s = c # cs"
    by (cases s) (auto simp: match_outer_def)
  from assms s obtain s5 d where
    r: "match_row (dropWhile is_space cs) = Some s5"
    and d: "dropWhile is_space (match_rows s5) = d # rest"
    by (auto simp: match_outer_def Let_def split: if_splits option.splits list.splits)
  have "length (d # rest) \<le> length (match_rows s5)"
    by (metis d length_dropWhile_le)
  also have "\<dots> \<le> length s5" by (rule match_rows_le)
  also have "\<dots> < length (dropWhile is_space cs)" using r by (rule match_row_shorter)
  also have "\<dots> \<le> length cs" by (rule length_dropWhile_le)
  finally show ?thesis using s by simp
qed

text \<open>
  \<open>re.findall(pattern, s)\<close>: the matches from left to right, each search starting where
  the previous match ended. With one group, \<open>findall\<close> returns the groups.
\<close>

function findall_outer :: "string \<Rightarrow> string list" where
  "findall_outer s =
     (case s of
        [] \<Rightarrow> []
      | c # cs \<Rightarrow>
          (case match_outer s of
             None \<Rightarrow> findall_outer cs
           | Some (g, rest) \<Rightarrow> g # findall_outer rest))"
  by pat_completeness auto
termination
  by (relation "measure length") (auto dest: match_outer_shorter)

declare findall_outer.simps [simp del]

text \<open>
  The row pattern \<^verbatim>\<open>\[([^\]]*)\]\<close> at the start of the text: the group and the text
  after the match.
\<close>

definition match_inner :: "string \<Rightarrow> (string \<times> string) option" where
  "match_inner s =
     (case s of
        [] \<Rightarrow> None
      | c # cs \<Rightarrow>
          if c \<noteq> CHR ''['' then None
          else (case dropWhile (\<lambda>d. d \<noteq> CHR '']'') cs of
                  [] \<Rightarrow> None
                | d # r \<Rightarrow> Some (takeWhile (\<lambda>d. d \<noteq> CHR '']'') cs, r)))"

lemma match_inner_shorter:
  assumes "match_inner s = Some (g, rest)"
  shows "length rest < length s"
proof -
  from assms obtain c cs where s: "s = c # cs"
    by (cases s) (auto simp: match_inner_def)
  from assms s obtain d where d: "dropWhile (\<lambda>d. d \<noteq> CHR '']'') cs = d # rest"
    by (auto simp: match_inner_def split: if_splits list.splits)
  have "length (d # rest) \<le> length cs"
    by (metis d length_dropWhile_le)
  then show ?thesis using s by simp
qed

function findall_rows :: "string \<Rightarrow> string list" where
  "findall_rows s =
     (case s of
        [] \<Rightarrow> []
      | c # cs \<Rightarrow>
          (case match_inner s of
             None \<Rightarrow> findall_rows cs
           | Some (g, rest) \<Rightarrow> g # findall_rows rest))"
  by pat_completeness auto
termination
  by (relation "measure length") (auto dest: match_inner_shorter)

declare findall_rows.simps [simp del]

text \<open>
  The built-in \<open>int(t)\<close> on a stripped token, base 10: an optional sign, then decimal
  digits, single underscores allowed between digits. \<open>None\<close> stands for
  \<open>ValueError\<close>. The interpreter refuses a literal of more than
  \<open>sys.int_info.default_max_str_digits = 4300\<close> digits.
\<close>

definition int_max_str_digits :: nat where
  "int_max_str_digits = 4300"

fun scan_digits :: "int \<Rightarrow> bool \<Rightarrow> string \<Rightarrow> int option" where
  "scan_digits acc prev [] = (if prev then Some acc else None)"
| "scan_digits acc prev (c # cs) =
     (if is_digit c then scan_digits (acc * 10 + (int (of_char c) - 48)) True cs
      else if c = CHR ''_'' \<and> prev then scan_digits acc False cs
      else None)"

definition py_digits :: "string \<Rightarrow> int option" where
  "py_digits d =
     (if length (filter is_digit d) > int_max_str_digits then None
      else scan_digits 0 False d)"

definition py_int :: "string \<Rightarrow> int option" where
  "py_int t =
     (case t of
        [] \<Rightarrow> None
      | c # cs \<Rightarrow>
          if c = CHR ''-'' then map_option uminus (py_digits cs)
          else if c = CHR ''+'' then py_digits cs
          else py_digits t)"

text \<open>
  The comprehension \<open>[int(n.strip()) for n in row.split(",") if n.strip()]\<close>: a token
  that is empty after \<open>strip\<close> is skipped, every other token goes to \<open>int\<close>.
\<close>

fun convert_tokens :: "string list \<Rightarrow> py_error + int list" where
  "convert_tokens [] = Inr []"
| "convert_tokens (n # ns) =
     (if strip n \<noteq> []
      then (case py_int (strip n) of
              None \<Rightarrow> Inl ValueError
            | Some v \<Rightarrow>
                (case convert_tokens ns of
                   Inl e \<Rightarrow> Inl e
                 | Inr vs \<Rightarrow> Inr (v # vs)))
      else convert_tokens ns)"

text \<open>The loop \<open>for row in rows\<close>.\<close>

fun convert_rows :: "string list \<Rightarrow> py_error + int list list" where
  "convert_rows [] = Inr []"
| "convert_rows (row # rows) =
     (case convert_tokens (str_split '','' row) of
        Inl e \<Rightarrow> Inl e
      | Inr nums \<Rightarrow>
          (case convert_rows rows of
             Inl e \<Rightarrow> Inl e
           | Inr array_2d \<Rightarrow> Inr (nums # array_2d)))"

text \<open>The loop \<open>for match in matches\<close>.\<close>

fun convert_matches :: "string list \<Rightarrow> py_error + int list list list" where
  "convert_matches [] = Inr []"
| "convert_matches (m # ms) =
     (case convert_rows (findall_rows m) of
        Inl e \<Rightarrow> Inl e
      | Inr array_2d \<Rightarrow>
          (case convert_matches ms of
             Inl e \<Rightarrow> Inl e
           | Inr arrays_list \<Rightarrow> Inr (array_2d # arrays_list)))"

definition parse_2d_arrays_from_string :: "string \<Rightarrow> py_error + int list list list" where
  "parse_2d_arrays_from_string s = convert_matches (findall_outer s)"


text \<open>The tokens of a row that reach \<open>int\<close>: stripped and not empty.\<close>

definition row_tokens :: "string \<Rightarrow> string list" where
  "row_tokens row = filter (\<lambda>n. n \<noteq> []) (map strip (str_split '','' row))"

definition all_tokens_numeric :: "string \<Rightarrow> bool" where
  "all_tokens_numeric s =
     (\<forall>m \<in> set (findall_outer s). \<forall>row \<in> set (findall_rows m).
        \<forall>t \<in> set (row_tokens row). py_int t \<noteq> None)"

definition example_text :: string where
  "example_text = ''result: [[1,2],[3,4]] and [[5]]''"

section \<open>Conversations\<close>

text \<open>
  A content part is a Python dict. The keys that the source reads or writes are
  \<open>type\<close>, \<open>text\<close>, \<open>image_url\<close> (a dict with the key \<open>url\<close>), \<open>source\<close> and
  \<open>cache_control\<close> (a dict with the key \<open>type\<close>); a key other than \<open>type\<close> may be
  absent, and reading an absent key raises \<open>KeyError\<close>.
\<close>

record image_source =
  src_data :: string
  src_media_type :: string
  src_type :: string

record part =
  p_type :: string
  p_text :: "string option"
  p_image_url :: "string option"
  p_source :: "image_source option"
  p_cache_control :: "string option"

text \<open>
  The content of a message is a \<open>str\<close> or a list of parts. The type parameter is what
  the list holds: parts themselves in a conversation read as a value, addresses of part
  dicts in the store.
\<close>

datatype 'p content = Str string | Parts "'p list"

record 'p message =
  role :: string
  content :: "'p content"

text \<open>\<open>sep.join(strs)\<close>.\<close>

fun join :: "string \<Rightarrow> string list \<Rightarrow> string" where
  "join sep [] = []"
| "join sep [x] = x"
| "join sep (x # y # ys) = x @ sep @ join sep (y # ys)"

text \<open>\<open>s.replace(old, new)\<close> for a non-empty \<open>old\<close>.\<close>

definition str_replace :: "string \<Rightarrow> string \<Rightarrow> string \<Rightarrow> string" where
  "str_replace old new s = join new (str_split old s)"

text \<open>
  The inner loop of \<open>text_only_messages\<close>, over the parts of a list content: the
  \<open>text\<close> of every part of type \<open>text\<close>.
\<close>

fun text_strs :: "part list \<Rightarrow> py_error + string list" where
  "text_strs [] = Inr []"
| "text_strs (c # cs) =
     (if p_type c = ''text''
      then (case p_text c of
              None \<Rightarrow> Inl KeyError
            | Some t \<Rightarrow>
                (case text_strs cs of
                   Inl e \<Rightarrow> Inl e
                 | Inr ts \<Rightarrow> Inr (t # ts)))
      else text_strs cs)"

text \<open>\<open>content_strs\<close> for one message: the string itself when the content is a \<open>str\<close>.\<close>

definition content_strs :: "part message \<Rightarrow> py_error + string list" where
  "content_strs m = (case content m of Str s \<Rightarrow> Inr [s] | Parts ps \<Rightarrow> text_strs ps)"

text \<open>
  \<open>text_only_messages\<close>: a message is kept when its list \<open>content_strs\<close> is not
  empty. The new dicts hold a \<open>str\<close> content, whatever the part type.
\<close>

fun text_only_messages :: "part message list \<Rightarrow> py_error + 'a message list" where
  "text_only_messages [] = Inr []"
| "text_only_messages (m # ms) =
     (case content_strs m of
        Inl e \<Rightarrow> Inl e
      | Inr strs \<Rightarrow>
          (case text_only_messages ms of
             Inl e \<Rightarrow> Inl e
           | Inr new_messages \<Rightarrow>
               Inr (if strs \<noteq> []
                    then \<lparr>role = role m, content = Str (join newline strs)\<rparr> # new_messages
                    else new_messages)))"

text \<open>What the properties of \<open>text_only_messages\<close> speak of.\<close>

definition is_text_part :: "part \<Rightarrow> bool" where
  "is_text_part p = (p_type p = ''text'')"

definition has_text :: "part message \<Rightarrow> bool" where
  "has_text m = (case content m of Str s \<Rightarrow> True | Parts ps \<Rightarrow> \<exists>p \<in> set ps. is_text_part p)"

definition texts_of :: "part message \<Rightarrow> string list" where
  "texts_of m =
     (case content m of
        Str s \<Rightarrow> [s]
      | Parts ps \<Rightarrow> map (\<lambda>p. the (p_text p)) (filter is_text_part ps))"

definition text_parts_ok :: "part message \<Rightarrow> bool" where
  "text_parts_ok m =
     (case content m of
        Str s \<Rightarrow> True
      | Parts ps \<Rightarrow> \<forall>p \<in> set ps. is_text_part p \<longrightarrow> p_text p \<noteq> None)"

text \<open>A small conversation: a system prompt, a user turn of text and image, an image alone.\<close>

definition text_part :: "string \<Rightarrow> string option \<Rightarrow> part" where
  "text_part t hint =
     \<lparr>p_type = ''text'', p_text = Some t, p_image_url = None, p_source = None,
      p_cache_control = hint\<rparr>"

definition image_url_part :: "string \<Rightarrow> string option \<Rightarrow> part" where
  "image_url_part url hint =
     \<lparr>p_type = ''image_url'', p_text = None, p_image_url = Some url, p_source = None,
      p_cache_control = hint\<rparr>"

definition example_conversation :: "part message list" where
  "example_conversation =
     [\<lparr>role = ''system'', content = Str ''be brief''\<rparr>,
      \<lparr>role = ''user'',
       content = Parts [text_part ''a'' None, image_url_part ''u'' None, text_part ''b'' None]\<rparr>,
      \<lparr>role = ''user'', content = Parts [image_url_part ''v'' None]\<rparr>]"

section \<open>Exceptions with their messages\<close>

text \<open>
  An exception that leaves an adapter or the orchestrator is a pair of its class and
  \<open>str(e)\<close>: the retry wrapper of the OpenRouter path decides on the text.
\<close>

type_synonym exn = "py_error \<times> string"

definition quoted :: "string \<Rightarrow> string" where
  "quoted k = [CHR 0x27] @ k @ [CHR 0x27]"

text \<open>\<open>KeyError(k)\<close> for a key of letters, digits and underscores: \<open>str(e)\<close> is \<open>repr(k)\<close>.\<close>

definition key_error :: "string \<Rightarrow> exn" where
  "key_error k = (KeyError, quoted k)"

definition list_index_error :: exn where
  "list_index_error = (IndexError, ''list index out of range'')"



section \<open>Provider adapters\<close>

text \<open>
  \<open>ModelUsage\<close>, with the four fields that every adapter fills. (The class is declared
  in \<open>src.models\<close>; its fields are those of the constructor calls.)
\<close>

record usage =
  cache_creation_input_tokens :: int
  cache_read_input_tokens :: int
  input_tokens :: int
  output_tokens :: int

text \<open>
  One attempt of an adapter is one execution of the body of its \<open>try\<close>: the request is
  built and sent, the response (or the stream) is read and normalised. The provider is
  outside the program, so the outcome of an attempt is given by an oracle: the attempt
  completes with the final text and the usage, or it raises
  \<open>anthropic.RateLimitError\<close>, or it raises another exception. An exception carries
  \<open>str(e)\<close>, which the handlers inspect.
\<close>

datatype reply =
    Success string usage
  | RateLimitError string
  | OtherError string

text \<open>
  What an adapter call does besides returning: the attempts it makes and the waits
  (\<open>asyncio.sleep\<close>, in seconds) it performs, in order. The oracle of a call maps the
  number of attempts made so far to the outcome of the next one.
\<close>

record trace =
  attempts :: nat
  sleeps :: "int list"

definition no_trace :: trace where
  "no_trace = \<lparr>attempts = 0, sleeps = []\<rparr>"

definition attempted :: "trace \<Rightarrow> trace" where
  "attempted tr = tr\<lparr>attempts := Suc (attempts tr)\<rparr>"

definition slept :: "int \<Rightarrow> trace \<Rightarrow> trace" where
  "slept secs tr = tr\<lparr>sleeps := sleeps tr @ [secs]\<rparr>"

type_synonym attempt_result = "(string \<times> usage) option"

subsection \<open>\<open>get_next_message_anthropic\<close>\<close>

text \<open>
  The \<open>while True\<close> loop, with \<open>retry_count\<close> as its state. \<open>RateLimitError\<close> is
  caught first; any other exception is first tested for \<open>invalid x-api-key\<close>.
\<close>

function anthropic_loop ::
  "(nat \<Rightarrow> reply) \<Rightarrow> int \<Rightarrow> int \<Rightarrow> int \<Rightarrow> trace \<Rightarrow> attempt_result \<times> trace" where
  "anthropic_loop replies retry_secs max_retries retry_count tr =
     (case replies (attempts tr) of
        Success final_content u \<Rightarrow> (Some (final_content, u), attempted tr)
      | RateLimitError e \<Rightarrow>
          if retry_count + 1 \<ge> max_retries then (None, attempted tr)
          else anthropic_loop replies retry_secs max_retries (retry_count + 1)
                 (slept retry_secs (attempted tr))
      | OtherError e \<Rightarrow>
          if contains ''invalid x-api-key'' e then (None, attempted tr)
          else if retry_count + 1 \<ge> max_retries then (None, attempted tr)
          else anthropic_loop replies retry_secs max_retries (retry_count + 1)
                 (slept retry_secs (attempted tr)))"
  by pat_completeness auto
termination
  by (relation "measure (\<lambda>(replies, retry_secs, max_retries, retry_count, tr).
                           nat (max_retries - retry_count))") auto

declare anthropic_loop.simps [simp del]

definition get_next_message_anthropic ::
  "(nat \<Rightarrow> reply) \<Rightarrow> int \<Rightarrow> int \<Rightarrow> attempt_result \<times> trace" where
  "get_next_message_anthropic replies retry_secs max_retries =
     anthropic_loop replies retry_secs max_retries 0 no_trace"

subsection \<open>\<open>get_next_message_openai\<close>\<close>

text \<open>
  The loops of \<open>get_next_message_openai\<close> and of \<open>get_next_message_xai\<close> have the
  same single handler \<open>except Exception\<close>: count, give up at \<open>max_retries\<close>,
  otherwise wait and try again. The adapters differ in the body of the \<open>try\<close> and in
  the default of \<open>max_retries\<close> (3 and 0). The OpenAI adapter hands the messages to
  the client as they are; the xAI adapter, which reads them first, is defined with the
  store, below.
\<close>

function retry_loop ::
  "(nat \<Rightarrow> reply) \<Rightarrow> int \<Rightarrow> int \<Rightarrow> int \<Rightarrow> trace \<Rightarrow> attempt_result \<times> trace" where
  "retry_loop replies retry_secs max_retries retry_count tr =
     (case replies (attempts tr) of
        Success final_content u \<Rightarrow> (Some (final_content, u), attempted tr)
      | RateLimitError e \<Rightarrow>
          if retry_count + 1 \<ge> max_retries then (None, attempted tr)
          else retry_loop replies retry_secs max_retries (retry_count + 1)
                 (slept retry_secs (attempted tr))
      | OtherError e \<Rightarrow>
          if retry_count + 1 \<ge> max_retries then (None, attempted tr)
          else retry_loop replies retry_secs max_retries (retry_count + 1)
                 (slept retry_secs (attempted tr)))"
  by pat_completeness auto
termination
  by (relation "measure (\<lambda>(replies, retry_secs, max_retries, retry_count, tr).
                           nat (max_retries - retry_count))") auto

declare retry_loop.simps [simp del]

definition get_next_message_openai ::
  "(nat \<Rightarrow> reply) \<Rightarrow> int \<Rightarrow> int \<Rightarrow> attempt_result \<times> trace" where
  "get_next_message_openai replies retry_secs max_retries =
     retry_loop replies retry_secs max_retries 0 no_trace"

subsection \<open>\<open>get_next_message_gemini\<close>\<close>

function gemini_loop ::
  "(nat \<Rightarrow> reply) \<Rightarrow> int \<Rightarrow> int \<Rightarrow> int \<Rightarrow> trace \<Rightarrow> attempt_result \<times> trace" where
  "gemini_loop replies retry_secs max_retries retry_count tr =
     (case replies (attempts tr) of
        Success response_text u \<Rightarrow> (Some (response_text, u), attempted tr)
      | RateLimitError e \<Rightarrow>
          if contains ''invalid x-api-key'' e then (None, attempted tr)
          else if retry_count + 1 \<ge> max_retries then (None, attempted tr)
          else gemini_loop replies retry_secs max_retries (retry_count + 1)
                 (slept retry_secs (attempted tr))
      | OtherError e \<Rightarrow>
          if contains ''invalid x-api-key'' e then (None, attempted tr)
          else if retry_count + 1 \<ge> max_retries then (None, attempted tr)
          else gemini_loop replies retry_secs max_retries (retry_count + 1)
                 (slept retry_secs (attempted tr)))"
  by pat_completeness auto
termination
  by (relation "measure (\<lambda>(replies, retry_secs, max_retries, retry_count, tr).
                           nat (max_retries - retry_count))") auto

declare gemini_loop.simps [simp del]

definition get_next_message_gemini ::
  "(nat \<Rightarrow> reply) \<Rightarrow> int \<Rightarrow> int \<Rightarrow> attempt_result \<times> trace" where
  "get_next_message_gemini replies retry_secs max_retries =
     gemini_loop replies retry_secs max_retries 0 no_trace"

subsection \<open>\<open>get_next_message_deepseek\<close>\<close>







section \<open>The store of message and part dicts\<close>

text \<open>
  \<open>get_next_messages\<close> and \<open>get_next_message\<close> write into the dicts of the
  conversation they are given, and rebind their local \<open>messages\<close> to slices and to
  fresh lists. What the caller sees afterwards depends on which dicts are shared, so the
  dicts live in a store: a message dict and a part dict each have an address, a list
  content holds the addresses of its parts, and a conversation is a list of message
  addresses. \<open>msg_next\<close> and \<open>part_next\<close> are the first addresses not yet in use: a
  dict built by the code is stored there. The lists themselves are never written by the
  code, only rebound, so they are values.
\<close>

record heap =
  msg_at :: "nat \<Rightarrow> nat message"
  part_at :: "nat \<Rightarrow> part"
  msg_next :: nat
  part_next :: nat

definition set_part :: "heap \<Rightarrow> nat \<Rightarrow> part \<Rightarrow> heap" where
  "set_part h a c = h\<lparr>part_at := (part_at h)(a := c)\<rparr>"

definition set_msg :: "heap \<Rightarrow> nat \<Rightarrow> nat message \<Rightarrow> heap" where
  "set_msg h a m = h\<lparr>msg_at := (msg_at h)(a := m)\<rparr>"

definition new_part :: "heap \<Rightarrow> part \<Rightarrow> heap \<times> nat" where
  "new_part h c =
     (h\<lparr>part_at := (part_at h)(part_next h := c), part_next := Suc (part_next h)\<rparr>,
      part_next h)"

definition new_msg :: "heap \<Rightarrow> nat message \<Rightarrow> heap \<times> nat" where
  "new_msg h m =
     (h\<lparr>msg_at := (msg_at h)(msg_next h := m), msg_next := Suc (msg_next h)\<rparr>,
      msg_next h)"

fun new_msgs :: "heap \<Rightarrow> nat message list \<Rightarrow> heap \<times> nat list" where
  "new_msgs h [] = (h, [])"
| "new_msgs h (m # ms) =
     (case new_msg h m of
        (h1, a) \<Rightarrow> (case new_msgs h1 ms of (h2, as) \<Rightarrow> (h2, a # as)))"

text \<open>The message at an address, read as a value.\<close>

definition deref :: "heap \<Rightarrow> nat \<Rightarrow> part message" where
  "deref h a =
     \<lparr>role = role (msg_at h a),
      content = (case content (msg_at h a) of
                   Str s \<Rightarrow> Str s
                 | Parts ps \<Rightarrow> Parts (map (part_at h) ps))\<rparr>"

text \<open>
  \<open>text_only_messages\<close> in the store: it reads the conversation and builds one new
  dict for every message it keeps. Its only exception is the \<open>KeyError\<close> of a part of
  type \<open>text\<close> without \<open>text\<close>.
\<close>

definition text_only_messages_in :: "heap \<Rightarrow> nat list \<Rightarrow> exn + heap \<times> nat list" where
  "text_only_messages_in h messages =
     (case text_only_messages (map (deref h) messages) of
        Inl e \<Rightarrow> Inl (e, quoted ''text'')
      | Inr new_messages \<Rightarrow> Inr (new_msgs h new_messages))"

subsection \<open>The Anthropic translation\<close>

definition png_prefix :: string where
  "png_prefix = ''data:image/png;base64,''"

text \<open>
  The first \<open>if\<close> of the inner loop: a part of type \<open>image_url\<close> becomes a part of type
  \<open>image\<close> with a \<open>source\<close>. The type is written before \<open>image_url\<close> is read, so a part
  without \<open>image_url\<close> is left with the new type when \<open>KeyError\<close> is raised.
\<close>

definition reshape_image :: "heap \<Rightarrow> nat \<Rightarrow> heap \<times> exn option" where
  "reshape_image h a =
     (let c = part_at h a
      in if p_type c = ''image_url''
         then (case p_image_url c of
                 None \<Rightarrow> (set_part h a (c\<lparr>p_type := ''image''\<rparr>), Some (key_error ''image_url''))
               | Some url \<Rightarrow>
                   (set_part h a
                      (c\<lparr>p_type := ''image'',
                         p_source := Some \<lparr>src_data = str_replace png_prefix [] url,
                                           src_media_type = ''image/png'',
                                           src_type = ''base64''\<rparr>,
                         p_image_url := None\<rparr>),
                    None))
         else (h, None))"

text \<open>
  The second \<open>if\<close>: a part with \<open>cache_control\<close> counts, and from the third on the
  key is deleted.
\<close>

definition count_hint :: "heap \<Rightarrow> nat \<Rightarrow> nat \<Rightarrow> heap \<times> nat" where
  "count_hint h cache_control_count a =
     (let c = part_at h a
      in if p_cache_control c \<noteq> None
         then (if cache_control_count + 1 \<ge> 3
               then (set_part h a (c\<lparr>p_cache_control := None\<rparr>), cache_control_count + 1)
               else (h, cache_control_count + 1))
         else (h, cache_control_count))"

text \<open>The inner loop \<open>for content in message["content"]\<close>.\<close>

fun translate_parts :: "heap \<Rightarrow> nat \<Rightarrow> nat list \<Rightarrow> heap \<times> (exn + nat)" where
  "translate_parts h n [] = (h, Inr n)"
| "translate_parts h n (a # as) =
     (case reshape_image h a of
        (h1, Some e) \<Rightarrow> (h1, Inl e)
      | (h1, None) \<Rightarrow>
          (case count_hint h1 n a of (h2, n2) \<Rightarrow> translate_parts h2 n2 as))"

text \<open>The outer loop \<open>for message in messages\<close>: a \<open>str\<close> content is passed over.\<close>

fun translate_messages :: "heap \<Rightarrow> nat \<Rightarrow> nat list \<Rightarrow> heap \<times> (exn + nat)" where
  "translate_messages h n [] = (h, Inr n)"
| "translate_messages h n (m # ms) =
     (case content (msg_at h m) of
        Str s \<Rightarrow> translate_messages h n ms
      | Parts ps \<Rightarrow>
          (case translate_parts h n ps of
             (h1, Inl e) \<Rightarrow> (h1, Inl e)
           | (h1, Inr n1) \<Rightarrow> translate_messages h1 n1 ms))"

text \<open>
  The lines after the loop: a \<open>str\<close> content of the last message is replaced by a list
  of one new text part, and the last part of the last message gets
  \<open>cache_control = {"type": "ephemeral"}\<close>. \<open>messages[-1]\<close> and \<open>[-1]\<close> of its
  content raise \<open>IndexError\<close> on an empty list.
\<close>

definition wrap_last_content :: "heap \<Rightarrow> nat \<Rightarrow> heap" where
  "wrap_last_content h m =
     (case content (msg_at h m) of
        Str s \<Rightarrow>
          (case new_part h \<lparr>p_type = ''text'', p_text = Some s, p_image_url = None,
                             p_source = None, p_cache_control = None\<rparr> of
             (h1, a) \<Rightarrow> set_msg h1 m ((msg_at h1 m)\<lparr>content := Parts [a]\<rparr>))
      | Parts ps \<Rightarrow> h)"

definition content_parts :: "heap \<Rightarrow> nat \<Rightarrow> nat list" where
  "content_parts h m = (case content (msg_at h m) of Str s \<Rightarrow> [] | Parts ps \<Rightarrow> ps)"

definition set_final_hint :: "heap \<Rightarrow> nat list \<Rightarrow> heap \<times> exn option" where
  "set_final_hint h messages =
     (case rev messages of
        [] \<Rightarrow> (h, Some list_index_error)
      | m # before \<Rightarrow>
          (let h1 = wrap_last_content h m
           in case rev (content_parts h1 m) of
                [] \<Rightarrow> (h1, Some list_index_error)
              | a # others \<Rightarrow>
                  (set_part h1 a ((part_at h1 a)\<lparr>p_cache_control := Some ''ephemeral''\<rparr>),
                   None)))"

text \<open>
  The split of the system message, shared by the Anthropic and the Gemini branches:
  \<open>messages[0]\<close> raises \<open>IndexError\<close> on an empty conversation; the content of a
  leading system message becomes \<open>system_messages\<close> and the message is sliced off,
  otherwise \<open>system_messages\<close> is the empty list.
\<close>

definition split_system :: "heap \<Rightarrow> nat list \<Rightarrow> exn + nat content \<times> nat list" where
  "split_system h messages =
     (case messages of
        [] \<Rightarrow> Inl list_index_error
      | m # rest \<Rightarrow>
          if role (msg_at h m) = ''system'' then Inr (content (msg_at h m), rest)
          else Inr (Parts [], messages))"

text \<open>
  The translation of the Anthropic branch of \<open>get_next_messages\<close>, from the split of
  the system message to the final hint: the store afterwards, and \<open>system_messages\<close>
  and \<open>messages\<close> as the adapter gets them.
\<close>

definition anthropic_translate ::
  "heap \<Rightarrow> nat list \<Rightarrow> heap \<times> (exn + nat content \<times> nat list)" where
  "anthropic_translate h messages =
     (case split_system h messages of
        Inl e \<Rightarrow> (h, Inl e)
      | Inr (system_messages, messages1) \<Rightarrow>
          (case translate_messages h 0 messages1 of
             (h1, Inl e) \<Rightarrow> (h1, Inl e)
           | (h1, Inr cache_control_count) \<Rightarrow>
               (case set_final_hint h1 messages1 of
                  (h2, Some e) \<Rightarrow> (h2, Inl e)
                | (h2, None) \<Rightarrow> (h2, Inr (system_messages, messages1)))))"




text \<open>
  What a caller sees of a call: the dicts that exist before it are those below
  \<open>msg_next\<close> and \<open>part_next\<close>. They are the same afterwards when every one of them
  holds what it held.
\<close>

definition same_messages :: "heap \<Rightarrow> heap \<Rightarrow> bool" where
  "same_messages h h' = (\<forall>a<msg_next h. msg_at h' a = msg_at h a)"

definition same_parts :: "heap \<Rightarrow> heap \<Rightarrow> bool" where
  "same_parts h h' = (\<forall>p<part_next h. part_at h' p = part_at h p)"

text \<open>
  A part that the Anthropic translation can reshape or pass over: a part of type
  \<open>image_url\<close> has its \<open>image_url\<close>.
\<close>

definition image_url_ok :: "heap \<Rightarrow> nat \<Rightarrow> bool" where
  "image_url_ok h a = (p_type (part_at h a) = ''image_url'' \<longrightarrow> p_image_url (part_at h a) \<noteq> None)"




subsection \<open>\<open>get_next_message_xai\<close>\<close>





section \<open>The single-call path \<open>get_next_message\<close>\<close>

text \<open>
  The members of the enum \<open>Model\<close> that \<open>src/llms/__init__.py\<close> names. (The enum is
  declared in \<open>src.models\<close>, which is not among the sources.)
\<close>

datatype model =
    claude_3_5_sonnet
  | claude_3_5_haiku
  | gpt_4o
  | gpt_4o_mini
  | gpt_5
  | o1_mini
  | o1_preview
  | o3_mini
  | deep_seek_r1
  | baseten_deepseek_r1
  | grok_3
  | grok_4
  | gemini_1_5_pro
  | openrouter_claude_3_5_sonnet
  | openrouter_model
  | openrouter_o1
  | openrouter_o1_mini
  | nvidia_llama_3_1_nemotron_70b_instruct
  | groq_llama_3_2_90b_vision
  | azure_gpt_4o
  | azure_gpt_4o_mini



subsection \<open>The message of a failed \<open>int\<close>\<close>











subsection \<open>The test flag\<close>



subsection \<open>The branches\<close>














section \<open>The fan-out orchestrator \<open>get_next_messages\<close>\<close>







subsection \<open>The Anthropic branch\<close>


subsection \<open>The OpenAI branch\<close>



subsection \<open>The DeepSeek branch\<close>

text \<open>
  The branch builds \<open>n_messages\<close> and ends without a \<open>return\<close>: the function returns
  \<open>None\<close>. With Baseten every gathered call reads \<open>BASETEN_R1_MODEL_ID\<close> first, and
  a \<open>KeyError\<close> leaves the orchestrator.
\<close>




subsection \<open>The xAI branch\<close>


subsection \<open>The Gemini branch\<close>


subsection \<open>The OpenRouter branch\<close>









subsection \<open>The dispatch\<close>


section \<open>Example runs\<close>











section \<open>Properties of the code-block extraction\<close>

lemma clean_code_no_tab: "tab \<notin> set (clean_code s)"
  by (induction s) (auto simp: tab_def)

lemma noop_code_no_tab: "tab \<notin> set noop_code"
  by (simp add: noop_code_def newline_def tab_def)

text \<open>
  Claim C9. Whatever string \<open>parse_python_backticks\<close> returns holds no tab character:
  every returning path ends in \<open>clean_code\<close> or in the placeholder \<open>noop_code\<close>.
\<close>

theorem parse_python_backticks_no_tab:
  "parse_python_backticks s = Inr r \<Longrightarrow> tab \<notin> set r"
  unfolding parse_python_backticks_def Let_def
  by (auto simp: clean_code_no_tab noop_code_no_tab split: if_splits option.splits)

theorem parse_python_backticks_no_tab_witness:
  "parse_python_backticks (fence @ newline @ [tab] @ ''x'' @ newline @ ''```'') = Inr ''    x''
   \<and> tab \<notin> set ''    x''"
proof -
  have h: "parse_python_backticks (fence @ newline @ [tab] @ ''x'' @ newline @ ''```'')
           = Inr ''    x''"
    by code_simp
  from parse_python_backticks_no_tab [OF h] h show ?thesis by simp
qed

text \<open>
  Claim C4. With two fenced regions of which none holds the marker \<open>def transform(\<close>,
  the loop leaves \<open>s\<close> unchanged, so \<open>s\<close> still counts two fences and the assertion
  \<open>assert s.count("```python") == 1\<close> fails: the function raises instead of returning
  the remainder after the first fence.
\<close>

theorem parse_python_backticks_two_regions_no_marker:
  "parse_python_backticks
     (fence @ newline @ ''a'' @ newline @ ''```'' @ newline @
      fence @ newline @ ''b'' @ newline @ ''```'') = Inl AssertionError"
  by code_simp

section \<open>Properties of the grid extraction\<close>

lemma convert_tokens_eq:
  "convert_tokens ns =
     (if \<forall>t \<in> set (filter (\<lambda>n. n \<noteq> []) (map strip ns)). py_int t \<noteq> None
      then Inr (map (\<lambda>t. the (py_int t)) (filter (\<lambda>n. n \<noteq> []) (map strip ns)))
      else Inl ValueError)"
  by (induction ns) (auto split: option.splits sum.splits)

lemma convert_rows_eq:
  "convert_rows rows =
     (if \<forall>row \<in> set rows. \<forall>t \<in> set (row_tokens row). py_int t \<noteq> None
      then Inr (map (\<lambda>row. map (\<lambda>t. the (py_int t)) (row_tokens row)) rows)
      else Inl ValueError)"
proof (induction rows)
  case Nil
  show ?case by simp
next
  case (Cons row rows)
  show ?case
    unfolding convert_rows.simps Cons.IH convert_tokens_eq row_tokens_def [symmetric]
    by (simp split: sum.splits)
qed

lemma convert_matches_eq:
  "convert_matches ms =
     (if \<forall>m \<in> set ms. \<forall>row \<in> set (findall_rows m). \<forall>t \<in> set (row_tokens row). py_int t \<noteq> None
      then Inr (map (\<lambda>m. map (\<lambda>row. map (\<lambda>t. the (py_int t)) (row_tokens row))
                            (findall_rows m)) ms)
      else Inl ValueError)"
proof (induction ms)
  case Nil
  show ?case by simp
next
  case (Cons m ms)
  show ?case
    unfolding convert_matches.simps Cons.IH convert_rows_eq
    by (simp split: sum.splits)
qed

text \<open>
  Claim C7, as amended. \<open>parse_2d_arrays_from_string\<close> returns normally exactly when
  every token of every matched row that is not blank is an integer literal for \<open>int\<close>;
  it then returns the grids in the order of the text, each row holding the integers of
  its non-blank tokens. Otherwise it raises \<open>ValueError\<close>: only blank tokens are
  ignored.
\<close>

theorem parse_2d_arrays_from_string_result:
  "parse_2d_arrays_from_string s =
     (if all_tokens_numeric s
      then Inr (map (\<lambda>m. map (\<lambda>row. map (\<lambda>t. the (py_int t)) (row_tokens row))
                            (findall_rows m)) (findall_outer s))
      else Inl ValueError)"
  unfolding parse_2d_arrays_from_string_def all_tokens_numeric_def
  by (rule convert_matches_eq)

theorem parse_2d_arrays_from_string_result_witness:
  "all_tokens_numeric example_text \<and>
   parse_2d_arrays_from_string example_text = Inr [[[1, 2], [3, 4]], [[5]]]"
proof -
  have a: "all_tokens_numeric example_text"
    by code_simp
  have b: "map (\<lambda>m. map (\<lambda>row. map (\<lambda>t. the (py_int t)) (row_tokens row))
                          (findall_rows m)) (findall_outer example_text)
           = [[[1, 2], [3, 4]], [[5]]]"
    by code_simp
  show ?thesis
    using parse_2d_arrays_from_string_result [of example_text] a b by simp
qed

text \<open>
  Claim C7, as stated, fails: a non-numeric token in a matched row is not ignored, the
  conversion raises \<open>ValueError\<close>.
\<close>

theorem parse_2d_arrays_from_string_raises:
  "parse_2d_arrays_from_string ''[[1,a]]'' = Inl ValueError"
  by code_simp

section \<open>Properties of \<open>text_only_messages\<close>\<close>

lemma text_strs_eq:
  "\<forall>p \<in> set ps. is_text_part p \<longrightarrow> p_text p \<noteq> None \<Longrightarrow>
   text_strs ps = Inr (map (\<lambda>p. the (p_text p)) (filter is_text_part ps))"
  by (induction ps) (auto simp: is_text_part_def)

lemma content_strs_eq: "text_parts_ok m \<Longrightarrow> content_strs m = Inr (texts_of m)"
  by (auto simp: content_strs_def texts_of_def text_parts_ok_def text_strs_eq
           split: content.splits)

lemma texts_of_empty: "texts_of m = [] \<longleftrightarrow> \<not> has_text m"
  by (auto simp: texts_of_def has_text_def filter_empty_conv split: content.splits)


lemma text_only_messages_Str:
  "(text_only_messages ms :: py_error + 'a message list) = Inr kept \<Longrightarrow>
   \<forall>m \<in> set kept. \<exists>s. content m = Str s"
  by (induction ms arbitrary: kept) (auto split: sum.splits if_splits)

text \<open>
  Claim C10, as amended. For a message list whose parts of type \<open>text\<close> all have a
  \<open>text\<close> field, \<open>text_only_messages\<close> returns exactly the messages whose content is a
  string (empty or not) or a part list with at least one part of type \<open>text\<close>, in their
  original order, each with its role and with the newline-join of its texts as content.
\<close>

theorem text_only_messages_result:
  "\<forall>m \<in> set ms. text_parts_ok m \<Longrightarrow>
   text_only_messages ms =
     Inr (map (\<lambda>m. \<lparr>role = role m, content = Str (join newline (texts_of m))\<rparr>)
              (filter has_text ms))"
proof (induction ms)
  case Nil
  show ?case by simp
next
  case (Cons m ms)
  from Cons.prems have ok: "content_strs m = Inr (texts_of m)"
    by (simp add: content_strs_eq)
  from Cons.prems have "\<forall>m \<in> set ms. text_parts_ok m"
    by simp
  note ih = Cons.IH [OF this]
  show ?case
    by (simp add: ih ok texts_of_empty)
qed

theorem text_only_messages_result_witness:
  "list_all text_parts_ok example_conversation \<and>
   (text_only_messages example_conversation :: py_error + nat message list) =
     Inr [\<lparr>role = ''system'', content = Str ''be brief''\<rparr>,
          \<lparr>role = ''user'', content = Str (''a'' @ newline @ ''b'')\<rparr>]"
proof -
  have ok: "\<forall>m \<in> set example_conversation. text_parts_ok m"
    by (simp add: example_conversation_def text_parts_ok_def is_text_part_def
                  text_part_def image_url_part_def)
  have "map (\<lambda>m. \<lparr>role = role m, content = Str (join newline (texts_of m))\<rparr>)
            (filter has_text example_conversation) =
        [\<lparr>role = ''system'', content = Str ''be brief''\<rparr>,
         \<lparr>role = ''user'', content = Str (''a'' @ newline @ ''b'')\<rparr> :: nat message]"
    by (simp add: example_conversation_def has_text_def texts_of_def is_text_part_def
                  text_part_def image_url_part_def)
  with text_only_messages_result [OF ok, where ?'a = nat] ok show ?thesis
    by (simp add: list_all_iff)
qed

text \<open>
  Claim C10, as stated, fails: a message whose content is the empty string has no
  non-empty string and no part of type \<open>text\<close>, and it is kept (with the empty string
  as content), not dropped.
\<close>

theorem text_only_messages_keeps_empty_string:
  "(text_only_messages [\<lparr>role = ''user'', content = Str []\<rparr>]
    :: py_error + nat message list) =
   Inr [\<lparr>role = ''user'', content = Str []\<rparr>]"
  by (simp add: content_strs_def)

section \<open>Properties of the adapters\<close>










text \<open>
  Claim C3, as amended. In \<open>get_next_message_anthropic\<close> and in
  \<open>get_next_message_gemini\<close>, a first attempt that fails with an exception whose message
  contains \<open>invalid x-api-key\<close> ends the call: one attempt, no wait, \<open>None\<close> returned.
\<close>

theorem auth_error_single_attempt:
  "replies 0 = OtherError e \<Longrightarrow> contains ''invalid x-api-key'' e \<Longrightarrow>
   get_next_message_anthropic replies retry_secs max_retries =
     (None, \<lparr>attempts = 1, sleeps = []\<rparr>) \<and>
   get_next_message_gemini replies retry_secs max_retries =
     (None, \<lparr>attempts = 1, sleeps = []\<rparr>)"
  unfolding get_next_message_anthropic_def get_next_message_gemini_def
  by (subst anthropic_loop.simps, subst gemini_loop.simps)
     (simp add: no_trace_def attempted_def)

theorem auth_error_single_attempt_witness:
  "(\<lambda>i. OtherError ''401 invalid x-api-key'') (0::nat) = OtherError ''401 invalid x-api-key'' \<and>
   contains ''invalid x-api-key'' ''401 invalid x-api-key'' \<and>
   get_next_message_anthropic (\<lambda>i. OtherError ''401 invalid x-api-key'') 15 200 =
     (None, \<lparr>attempts = 1, sleeps = []\<rparr>) \<and>
   get_next_message_gemini (\<lambda>i. OtherError ''401 invalid x-api-key'') 15 200 =
     (None, \<lparr>attempts = 1, sleeps = []\<rparr>)"
proof -
  have c: "contains ''invalid x-api-key'' ''401 invalid x-api-key''"
    by code_simp
  from auth_error_single_attempt
         [of "\<lambda>i. OtherError ''401 invalid x-api-key''" "''401 invalid x-api-key''", OF _ c]
       c
  show ?thesis by simp
qed

text \<open>
  Claim C3, as stated, fails: \<open>get_next_message_openai\<close> has no test for an
  authentication error. With its default of three attempts, an invalid credential is
  tried three times, with two waits in between.
\<close>

theorem get_next_message_openai_retries_auth_error:
  "get_next_message_openai (\<lambda>i. OtherError ''401 invalid x-api-key'') 15 3 =
     (None, \<lparr>attempts = 3, sleeps = [15, 15]\<rparr>)"
  by code_simp

section \<open>Properties of the cache hints\<close>











text \<open>The final hint adds at most one hinted part, and it is the last part of the last message.\<close>

lemma rev_last: "xs \<noteq> [] \<Longrightarrow> rev xs = last xs # rev (butlast xs)"
  by (cases xs rule: rev_cases) simp_all





section \<open>Properties of the store\<close>

text \<open>
  The dicts that exist before a call are those at the addresses below \<open>msg_next\<close> and
  \<open>part_next\<close>. A dict that the code builds is stored above them.
\<close>

lemma new_msgs_parts:
  "new_msgs h ms = (h1, as) \<Longrightarrow>
   part_at h1 = part_at h \<and> part_next h1 = part_next h \<and>
   msg_next h1 = msg_next h + length ms"
proof (induction ms arbitrary: h h1 as)
  case Nil
  then show ?case by simp
next
  case (Cons m ms)
  let ?h0 = "h\<lparr>msg_at := (msg_at h)(msg_next h := m), msg_next := Suc (msg_next h)\<rparr>"
  from Cons.prems obtain bs where n: "new_msgs ?h0 ms = (h1, bs)"
    by (auto simp: new_msg_def split: prod.splits)
  from Cons.IH [OF n] show ?case by simp
qed

lemma new_msgs_below:
  "new_msgs h ms = (h1, as) \<Longrightarrow> a < msg_next h \<Longrightarrow> msg_at h1 a = msg_at h a"
proof (induction ms arbitrary: h h1 as)
  case Nil
  then show ?case by simp
next
  case (Cons m ms)
  let ?h0 = "h\<lparr>msg_at := (msg_at h)(msg_next h := m), msg_next := Suc (msg_next h)\<rparr>"
  from Cons.prems(1) obtain bs where n: "new_msgs ?h0 ms = (h1, bs)"
    by (auto simp: new_msg_def split: prod.splits)
  from Cons.prems(2) have "a < msg_next ?h0" by simp
  from Cons.IH [OF n this] Cons.prems(2) show ?case by simp
qed

lemma new_msgs_ge:
  "new_msgs h ms = (h1, as) \<Longrightarrow> a \<in> set as \<Longrightarrow> msg_next h \<le> a"
proof (induction ms arbitrary: h h1 as)
  case Nil
  then show ?case by simp
next
  case (Cons m ms)
  let ?h0 = "h\<lparr>msg_at := (msg_at h)(msg_next h := m), msg_next := Suc (msg_next h)\<rparr>"
  from Cons.prems(1) obtain bs where n: "new_msgs ?h0 ms = (h1, bs)"
    and as: "as = msg_next h # bs"
    by (auto simp: new_msg_def split: prod.splits)
  show ?case
  proof (cases "a = msg_next h")
    case True
    then show ?thesis by simp
  next
    case False
    with Cons.prems(2) as have "a \<in> set bs" by simp
    from Cons.IH [OF n this] show ?thesis by simp
  qed
qed

lemma new_msgs_map:
  "new_msgs h ms = (h1, as) \<Longrightarrow> map (msg_at h1) as = ms"
proof (induction ms arbitrary: h h1 as)
  case Nil
  then show ?case by simp
next
  case (Cons m ms)
  let ?h0 = "h\<lparr>msg_at := (msg_at h)(msg_next h := m), msg_next := Suc (msg_next h)\<rparr>"
  from Cons.prems(1) obtain bs where n: "new_msgs ?h0 ms = (h1, bs)"
    and as: "as = msg_next h # bs"
    by (auto simp: new_msg_def split: prod.splits)
  have "msg_next h < msg_next ?h0" by simp
  from new_msgs_below [OF n this] have "msg_at h1 (msg_next h) = m" by simp
  with Cons.IH [OF n] as show ?case by simp
qed

lemma text_only_messages_in_frame:
  assumes t: "text_only_messages_in h messages = Inr (h1, messages1)"
  shows "part_at h1 = part_at h" and "part_next h1 = part_next h"
    and "msg_next h \<le> msg_next h1"
    and "\<And>a. a < msg_next h \<Longrightarrow> msg_at h1 a = msg_at h a"
    and "\<And>m. m \<in> set messages1 \<Longrightarrow> msg_next h \<le> m"
    and "\<And>m. m \<in> set messages1 \<Longrightarrow> \<exists>s. content (msg_at h1 m) = Str s"
proof -
  from t obtain kept :: "nat message list" where
    k: "text_only_messages (map (deref h) messages) = Inr kept"
    and n: "new_msgs h kept = (h1, messages1)"
    by (auto simp: text_only_messages_in_def split: sum.splits)
  from new_msgs_parts [OF n]
  show "part_at h1 = part_at h" and "part_next h1 = part_next h"
    and "msg_next h \<le> msg_next h1"
    by simp_all
  show "\<And>a. a < msg_next h \<Longrightarrow> msg_at h1 a = msg_at h a"
    by (rule new_msgs_below [OF n])
  show "\<And>m. m \<in> set messages1 \<Longrightarrow> msg_next h \<le> m"
    by (rule new_msgs_ge [OF n])
  show "\<exists>s. content (msg_at h1 m) = Str s" if "m \<in> set messages1" for m
  proof -
    from that have "msg_at h1 m \<in> set (map (msg_at h1) messages1)" by simp
    then have "msg_at h1 m \<in> set kept"
      by (simp only: new_msgs_map [OF n])
    with text_only_messages_Str [OF k] show ?thesis by blast
  qed
qed

lemma text_only_messages_in_role:
  assumes t: "text_only_messages_in h messages = Inr (h1, messages1)"
    and k: "text_only_messages (map (deref h) messages) = Inr (kept :: nat message list)"
  shows "map (msg_at h1) messages1 = kept"
proof -
  from t k have "new_msgs h kept = (h1, messages1)"
    by (simp add: text_only_messages_in_def)
  then show ?thesis by (rule new_msgs_map)
qed

subsection \<open>The Anthropic translation of copies\<close>

lemma translate_messages_Str:
  "\<forall>m \<in> set ms. \<exists>s. content (msg_at h m) = Str s \<Longrightarrow>
   translate_messages h n ms = (h, Inr n)"
  by (induction ms) auto

lemma wrap_last_content_Str:
  "content (msg_at h m) = Str s \<Longrightarrow>
   wrap_last_content h m =
     h\<lparr>part_at := (part_at h)(part_next h :=
          \<lparr>p_type = ''text'', p_text = Some s, p_image_url = None, p_source = None,
           p_cache_control = None\<rparr>),
       part_next := Suc (part_next h),
       msg_at := (msg_at h)(m := (msg_at h m)\<lparr>content := Parts [part_next h]\<rparr>)\<rparr>"
  by (simp add: wrap_last_content_def new_part_def set_msg_def)

lemma wrap_last_content_Parts:
  "content (msg_at h m) = Parts ps \<Longrightarrow> wrap_last_content h m = h"
  by (simp add: wrap_last_content_def)

lemma set_final_hint_last:
  "ms \<noteq> [] \<Longrightarrow>
   set_final_hint h ms =
     (let h1 = wrap_last_content h (last ms)
      in case rev (content_parts h1 (last ms)) of
           [] \<Rightarrow> (h1, Some list_index_error)
         | a # others \<Rightarrow>
             (set_part h1 a ((part_at h1 a)\<lparr>p_cache_control := Some ''ephemeral''\<rparr>), None))"
  unfolding set_final_hint_def by (subst rev_last) simp_all

lemma set_final_hint_Str:
  assumes ne: "ms \<noteq> []" and s: "content (msg_at h (last ms)) = Str s"
    and f: "set_final_hint h ms = (h', r)"
  shows "r = None"
    and "\<And>a. a \<noteq> last ms \<Longrightarrow> msg_at h' a = msg_at h a"
    and "\<And>p. p \<noteq> part_next h \<Longrightarrow> part_at h' p = part_at h p"
proof -
  let ?h1 = "wrap_last_content h (last ms)"
  have cp: "content_parts ?h1 (last ms) = [part_next h]"
    by (simp add: wrap_last_content_Str [OF s] content_parts_def)
  from f have h': "h' = set_part ?h1 (part_next h)
                          ((part_at ?h1 (part_next h))\<lparr>p_cache_control := Some ''ephemeral''\<rparr>)"
    and r: "r = None"
    unfolding set_final_hint_last [OF ne] Let_def cp by simp_all
  from r show "r = None" .
  show "\<And>a. a \<noteq> last ms \<Longrightarrow> msg_at h' a = msg_at h a"
    by (simp add: h' set_part_def wrap_last_content_Str [OF s])
  show "\<And>p. p \<noteq> part_next h \<Longrightarrow> part_at h' p = part_at h p"
    by (simp add: h' set_part_def wrap_last_content_Str [OF s])
qed

lemma set_final_hint_succeeds:
  assumes ne: "ms \<noteq> []" and c: "content (msg_at h (last ms)) \<noteq> Parts []"
  shows "\<exists>h'. set_final_hint h ms = (h', None)"
proof (cases "content (msg_at h (last ms))")
  case (Str s)
  obtain h' r where f: "set_final_hint h ms = (h', r)"
    by (cases "set_final_hint h ms")
  from set_final_hint_Str(1) [OF ne Str f] f show ?thesis by simp
next
  case (Parts ps)
  with c have "ps \<noteq> []" by simp
  then obtain a others where r: "rev ps = a # others"
    by (cases "rev ps") simp_all
  show ?thesis
    unfolding set_final_hint_last [OF ne] Let_def wrap_last_content_Parts [OF Parts]
    by (simp add: content_parts_def Parts r)
qed

lemma set_final_hint_role:
  "set_final_hint h ms = (h', r) \<Longrightarrow> role (msg_at h' a) = role (msg_at h a)"
  by (auto simp: set_final_hint_def Let_def set_part_def wrap_last_content_def new_part_def
                 set_msg_def
           split: list.splits content.splits)

lemma split_system_subset:
  "split_system h ms = Inr (system_messages, rest) \<Longrightarrow> set rest \<subseteq> set ms"
  by (auto simp: split_system_def split: list.splits if_splits)

lemma anthropic_translate_Str:
  assumes c: "\<And>m. m \<in> set ms \<Longrightarrow> B \<le> m \<and> (\<exists>s. content (msg_at h m) = Str s)"
    and t: "anthropic_translate h ms = (h', r)"
  shows "\<And>a. a < B \<Longrightarrow> msg_at h' a = msg_at h a"
    and "\<And>p. p < part_next h \<Longrightarrow> part_at h' p = part_at h p"
    and "\<And>system_messages rest. split_system h ms = Inr (system_messages, rest) \<Longrightarrow>
           rest \<noteq> [] \<Longrightarrow> \<exists>x. r = Inr x"
proof -
  have main: "(\<forall>a<B. msg_at h' a = msg_at h a) \<and> (\<forall>p<part_next h. part_at h' p = part_at h p) \<and>
        (\<forall>system_messages rest. split_system h ms = Inr (system_messages, rest) \<longrightarrow>
           rest \<noteq> [] \<longrightarrow> (\<exists>x. r = Inr x))"
  proof (cases "split_system h ms")
    case (Inl e)
    with t show ?thesis by (simp add: anthropic_translate_def)
  next
    case (Inr p)
    obtain system_messages rest where p: "p = (system_messages, rest)" by (cases p)
    from Inr p have sp: "split_system h ms = Inr (system_messages, rest)" by simp
    from split_system_subset [OF sp] c
    have cr: "\<And>m. m \<in> set rest \<Longrightarrow> B \<le> m \<and> (\<exists>s. content (msg_at h m) = Str s)"
      by blast
    then have tm: "translate_messages h 0 rest = (h, Inr 0)"
      by (intro translate_messages_Str) blast
    obtain h2 r2 where f: "set_final_hint h rest = (h2, r2)"
      by (cases "set_final_hint h rest")
    from t sp tm f have h': "h' = h2"
      by (simp add: anthropic_translate_def split: option.splits)
    show ?thesis
    proof (cases "rest = []")
      case True
      with f have "h2 = h" by (simp add: set_final_hint_def)
      with h' True sp show ?thesis by simp
    next
      case False
      then have l: "last rest \<in> set rest" by simp
      from cr [OF l] obtain s where s: "content (msg_at h (last rest)) = Str s"
        and b: "B \<le> last rest"
        by blast
      note fs = set_final_hint_Str [OF False s f]
      from fs(1) t sp tm f have r: "r = Inr (system_messages, rest)"
        by (simp add: anthropic_translate_def)
      have "msg_at h' a = msg_at h a" if "a < B" for a
        using that b fs(2) [of a] h' by simp
      moreover have "part_at h' q = part_at h q" if "q < part_next h" for q
        using that fs(3) [of q] h' by simp
      ultimately show ?thesis using r by simp
    qed
  qed
  from main have m1: "\<forall>a<B. msg_at h' a = msg_at h a"
    by (rule conjunct1)
  from main have m2: "\<forall>p<part_next h. part_at h' p = part_at h p"
    by (rule conjunct1 [OF conjunct2])
  from main have m3: "\<forall>system_messages rest. split_system h ms = Inr (system_messages, rest) \<longrightarrow>
           rest \<noteq> [] \<longrightarrow> (\<exists>x. r = Inr x)"
    by (rule conjunct2 [OF conjunct2])
  from m1 show "\<And>a. a < B \<Longrightarrow> msg_at h' a = msg_at h a"
    by simp
  from m2 show "\<And>p. p < part_next h \<Longrightarrow> part_at h' p = part_at h p"
    by simp
  fix system_messages rest
  assume a: "split_system h ms = Inr (system_messages, rest)" "rest \<noteq> []"
  from m3 [rule_format, OF a] show "\<exists>x. r = Inr x" .
qed

section \<open>Properties of the test flag\<close>












section \<open>Properties of the fan-out\<close>


















end
